theory Spec2Isabelle
  imports Main
begin

section \<open>Refresh-token lifecycle of kinzoku-api\<close>

text \<open>
  The development embeds \<^verbatim>\<open>repositories/user.repository.ts\<close> (the refresh-token
  operations of \<^verbatim>\<open>UserRepository\<close>), the cookie names of \<^verbatim>\<open>config.ts\<close> and the
  \<^verbatim>\<open>signUp\<close>, \<^verbatim>\<open>signIn\<close> and \<^verbatim>\<open>logout\<close> handlers of
  \<^verbatim>\<open>controllers/user.controller.ts\<close>.

  What the source reads from its environment is an argument of the model:
  \<^item> \<^verbatim>\<open>hashToken\<close> (imported from \<^verbatim>\<open>../utils/tokens\<close>) is the first argument
    \<open>hashToken\<close> of every operation that hashes;
  \<^item> \<^verbatim>\<open>new Date()\<close> is the argument \<open>now\<close>, \<^verbatim>\<open>uuidv4()\<close> the argument \<open>newRaw\<close>,
    and the identifier the database gives a new row the argument \<open>newId\<close>;
  \<^item> the services of \<^verbatim>\<open>../services/user.service\<close> and the zod schemas are function
    arguments of the handlers.
  A \<^verbatim>\<open>Date\<close> is its number of milliseconds since the epoch, an \<open>int\<close>.
\<close>

subsection \<open>The table behind \<^verbatim>\<open>prisma.refreshToken\<close>\<close>

text \<open>
  Modelled from the spec: the Prisma schema (\<^verbatim>\<open>schema.prisma\<close>) is missing. The
  fields are the ones the repository reads and writes; the field \<^verbatim>\<open>id\<close> is named
  \<open>id_rt\<close> here. The spec's data model gives the rest: \<^verbatim>\<open>id\<close> and the fingerprint
  are unique, \<^verbatim>\<open>userId\<close> is a foreign relation to the user, and a created record is
  not revoked.
\<close>

record RefreshToken =
  id_rt :: string
  userId :: string
  tokenHash :: string
  expiresAt :: int
  revoked :: bool

text \<open>
  The database: the identifiers of the user rows (all the refresh-token code needs of
  them) and the refresh-token rows in insertion order.
\<close>

record db =
  users :: "string list"
  refreshTokens :: "RefreshToken list"

text \<open>
  The three \<^verbatim>\<open>Error\<close>s thrown by \<^verbatim>\<open>rotateRefreshToken\<close>, named as the spec names
  them (\<^verbatim>\<open>"Invalid refresh token"\<close>, \<^verbatim>\<open>"Refresh token reuse detected"\<close>,
  \<^verbatim>\<open>"Refresh token expired"\<close>), and the errors Prisma raises: a unique constraint
  (P2002), a foreign key (P2003), no record to update (P2025).
\<close>

datatype error =
  InvalidToken | ReuseDetected | Expired
  | UniqueConstraint | ForeignKeyConstraint | RecordNotFound

subsection \<open>The Prisma client calls the repository makes\<close>

text \<open>\<^verbatim>\<open>findUnique({ where: { tokenHash } })\<close>\<close>

definition findUnique_tokenHash :: "string \<Rightarrow> db \<Rightarrow> RefreshToken option" where
  "findUnique_tokenHash th s = List.find (\<lambda>r. tokenHash r = th) (refreshTokens s)"

text \<open>
  \<^verbatim>\<open>create({ data: { userId, tokenHash, expiresAt } })\<close>: the row gets the
  identifier \<open>newId\<close> and \<open>revoked = False\<close>, and is returned.
\<close>

definition create_rt ::
  "string \<Rightarrow> string \<Rightarrow> string \<Rightarrow> int \<Rightarrow> db \<Rightarrow> (error + RefreshToken) \<times> db" where
  "create_rt newId userId' tokenHash' expiresAt' s =
     (if userId' \<notin> set (users s) then (Inl ForeignKeyConstraint, s)
      else if \<exists>r \<in> set (refreshTokens s). id_rt r = newId \<or> tokenHash r = tokenHash'
        then (Inl UniqueConstraint, s)
      else
        (let r = \<lparr>id_rt = newId, userId = userId', tokenHash = tokenHash',
                   expiresAt = expiresAt', revoked = False\<rparr>
         in (Inr r, s\<lparr>refreshTokens := refreshTokens s @ [r]\<rparr>)))"

text \<open>
  \<^verbatim>\<open>update({ where: { id }, data: { revoked: true } })\<close>: returns the updated row,
  and throws when no row has the identifier.
\<close>

definition setRevoked :: "RefreshToken \<Rightarrow> RefreshToken" where
  "setRevoked r = r\<lparr>revoked := True\<rparr>"

definition update_revoked :: "string \<Rightarrow> db \<Rightarrow> (error + RefreshToken) \<times> db" where
  "update_revoked i s =
     (case List.find (\<lambda>r. id_rt r = i) (refreshTokens s) of
        None \<Rightarrow> (Inl RecordNotFound, s)
      | Some r \<Rightarrow>
          (Inr (setRevoked r),
           s\<lparr>refreshTokens :=
               map (\<lambda>r. if id_rt r = i then setRevoked r else r) (refreshTokens s)\<rparr>))"

text \<open>
  \<^verbatim>\<open>updateMany({ where, data: { revoked: true } })\<close>: returns the number of rows
  the filter matched.
\<close>

definition updateMany_revoked :: "(RefreshToken \<Rightarrow> bool) \<Rightarrow> db \<Rightarrow> nat \<times> db" where
  "updateMany_revoked wh s =
     (length (filter wh (refreshTokens s)),
      s\<lparr>refreshTokens := map (\<lambda>r. if wh r then setRevoked r else r) (refreshTokens s)\<rparr>)"

text \<open>
  \<^verbatim>\<open>prisma.$transaction(async (tx) => ...)\<close>, the interactive transaction: the
  callback runs on the database; when it returns the writes are committed, when it
  throws they are rolled back and the error is thrown again. The callback is a
  function from the database to its outcome and the database as it has written it.
\<close>

definition transaction ::
  "(db \<Rightarrow> (error + 'a) \<times> db) \<Rightarrow> db \<Rightarrow> (error + 'a) \<times> db" where
  "transaction callback s =
     (case callback s of
        (Inl e, tx) \<Rightarrow> (Inl e, s)
      | (Inr v, tx) \<Rightarrow> (Inr v, tx))"

subsection \<open>\<^verbatim>\<open>UserRepository\<close>\<close>

definition createRefreshToken ::
  "(string \<Rightarrow> string) \<Rightarrow> string \<Rightarrow> string \<Rightarrow> int \<Rightarrow> string \<Rightarrow> db
     \<Rightarrow> (error + RefreshToken) \<times> db" where
  "createRefreshToken hashToken userId' rawToken expiresAt' newId s =
     (let tokenHash' = hashToken rawToken
      in create_rt newId userId' tokenHash' expiresAt' s)"

text \<open>
  \<^verbatim>\<open>include: { user: true }\<close> joins the user row, of which the model keeps the
  identifier, already in the record.
\<close>

definition findRefreshTokenByRaw ::
  "(string \<Rightarrow> string) \<Rightarrow> string \<Rightarrow> db \<Rightarrow> RefreshToken option" where
  "findRefreshTokenByRaw hashToken rawToken s =
     (let tokenHash' = hashToken rawToken in findUnique_tokenHash tokenHash' s)"

text \<open>The optional argument \<^verbatim>\<open>opts\<close> is not used by the source.\<close>

definition revokeRefreshTokenById ::
  "string \<Rightarrow> string option \<Rightarrow> db \<Rightarrow> (error + RefreshToken) \<times> db" where
  "revokeRefreshTokenById tokenId opts s = update_revoked tokenId s"

definition revokeAllRefreshTokensForUser :: "string \<Rightarrow> db \<Rightarrow> nat \<times> db" where
  "revokeAllRefreshTokensForUser userId' s =
     updateMany_revoked (\<lambda>r. userId r = userId' \<and> revoked r = False) s"

text \<open>
  The callback of \<^verbatim>\<open>rotateRefreshToken\<close>, statement by statement; the second
  component is the database as the callback has written it when it returns or throws.
\<close>

definition rotateCallback ::
  "(string \<Rightarrow> string) \<Rightarrow> string \<Rightarrow> string \<Rightarrow> int \<Rightarrow> int \<Rightarrow> string \<Rightarrow> string \<Rightarrow> db
     \<Rightarrow> (error + string \<times> RefreshToken) \<times> db" where
  "rotateCallback hashToken oldHash userId' newExpiresAt now newRaw newId tx =
     (case findUnique_tokenHash oldHash tx of
        None \<Rightarrow> (Inl InvalidToken, tx)
      | Some oldRecord \<Rightarrow>
          if revoked oldRecord then
            (Inl ReuseDetected, snd (updateMany_revoked (\<lambda>r. userId r = userId') tx))
          else if expiresAt oldRecord < now then
            (case update_revoked (id_rt oldRecord) tx of
               (Inl e, tx1) \<Rightarrow> (Inl e, tx1)
             | (Inr u, tx1) \<Rightarrow> (Inl Expired, tx1))
          else
            (let newHash = hashToken newRaw in
             case create_rt newId userId' newHash newExpiresAt tx of
               (Inl e, tx1) \<Rightarrow> (Inl e, tx1)
             | (Inr newRecord, tx1) \<Rightarrow>
                 (case update_revoked (id_rt oldRecord) tx1 of
                    (Inl e, tx2) \<Rightarrow> (Inl e, tx2)
                  | (Inr u, tx2) \<Rightarrow> (Inr (newRaw, newRecord), tx2))))"

definition rotateRefreshToken ::
  "(string \<Rightarrow> string) \<Rightarrow> string \<Rightarrow> string \<Rightarrow> int \<Rightarrow> int \<Rightarrow> string \<Rightarrow> string \<Rightarrow> db
     \<Rightarrow> (error + string \<times> RefreshToken) \<times> db" where
  "rotateRefreshToken hashToken oldRawToken userId' newExpiresAt now newRaw newId s =
     (let oldHash = hashToken oldRawToken
      in transaction (rotateCallback hashToken oldHash userId' newExpiresAt now newRaw newId) s)"

subsection \<open>The operations as steps of the database\<close>

text \<open>
  One call of the repository, with everything it reads from its environment. A run
  is a list of calls applied from left to right; each call is one statement or one
  transaction, so a run is a serial history.
\<close>

datatype call =
    Create string string int string
  | Find string
  | Revoke string "string option"
  | RevokeAll string
  | Rotate string string int int string string

fun step :: "(string \<Rightarrow> string) \<Rightarrow> db \<Rightarrow> call \<Rightarrow> db" where
  "step hashToken s (Create userId' rawToken expiresAt' newId) =
     snd (createRefreshToken hashToken userId' rawToken expiresAt' newId s)"
| "step hashToken s (Find rawToken) = s"
| "step hashToken s (Revoke tokenId opts) = snd (revokeRefreshTokenById tokenId opts s)"
| "step hashToken s (RevokeAll userId') = snd (revokeAllRefreshTokensForUser userId' s)"
| "step hashToken s (Rotate oldRawToken userId' newExpiresAt now newRaw newId) =
     snd (rotateRefreshToken hashToken oldRawToken userId' newExpiresAt now newRaw newId s)"

definition run :: "(string \<Rightarrow> string) \<Rightarrow> db \<Rightarrow> call list \<Rightarrow> db" where
  "run hashToken s cs = foldl (step hashToken) s cs"

text \<open>
  The revoked flags of \<open>rs'\<close> are those of \<open>rs\<close> or later ones: every row of \<open>rs\<close> is
  still there, at its place and with its fields, and is revoked if it was.
\<close>

definition row_later :: "RefreshToken \<Rightarrow> RefreshToken \<Rightarrow> bool" where
  "row_later r r' \<longleftrightarrow>
     id_rt r' = id_rt r \<and> userId r' = userId r \<and> tokenHash r' = tokenHash r \<and>
     expiresAt r' = expiresAt r \<and> (revoked r \<longrightarrow> revoked r')"

definition revoked_monotonic :: "RefreshToken list \<Rightarrow> RefreshToken list \<Rightarrow> bool" where
  "revoked_monotonic rs rs' \<longleftrightarrow>
     length rs \<le> length rs' \<and> list_all2 row_later rs (take (length rs) rs')"

subsection \<open>\<^verbatim>\<open>config.cookie\<close> and the handlers\<close>

definition accessCookieName :: string where
  "accessCookieName = ''access_token''"

definition refreshCookieName :: string where
  "refreshCookieName = ''refresh_token''"

text \<open>
  The response a handler sends: the status and the \<^verbatim>\<open>message\<close> of the JSON body,
  the cookies it sets (name and value) and the names of the cookies it clears. The
  cookie options and the \<^verbatim>\<open>user\<close> object of the body are left out.
\<close>

record response =
  status :: nat
  message :: string
  cookies_set :: "(string \<times> string) list"
  cookies_cleared :: "string list"

text \<open>
  \<^verbatim>\<open>safeParse\<close> gives the validated data or nothing; the service returns the user
  and the two tokens, or throws an \<^verbatim>\<open>Error\<close> with a message.
\<close>

definition signUp ::
  "('b \<Rightarrow> 'd option) \<Rightarrow> ('d \<Rightarrow> string + 'u \<times> string \<times> string) \<Rightarrow> 'b \<Rightarrow> response" where
  "signUp safeParse userService_signUp body =
     (case safeParse body of
        None \<Rightarrow> \<lparr>status = 422, message = ''Invalid input data'',
                  cookies_set = [], cookies_cleared = []\<rparr>
      | Some data \<Rightarrow>
          (case userService_signUp data of
             Inl msg \<Rightarrow>
               \<lparr>status = (if msg = ''User already exists!'' then 409 else 500),
                message = msg, cookies_set = [], cookies_cleared = []\<rparr>
           | Inr (user, accessToken, refreshToken) \<Rightarrow>
               \<lparr>status = 201, message = ''User successfully created'',
                cookies_set = [(accessCookieName, accessToken),
                               (refreshCookieName, refreshToken)],
                cookies_cleared = []\<rparr>))"

definition signIn ::
  "('b \<Rightarrow> 'd option) \<Rightarrow> ('d \<Rightarrow> string + 'u \<times> string \<times> string) \<Rightarrow> 'b \<Rightarrow> response" where
  "signIn safeParse userService_signIn body =
     (case safeParse body of
        None \<Rightarrow> \<lparr>status = 422, message = ''Invalid input'',
                  cookies_set = [], cookies_cleared = []\<rparr>
      | Some data \<Rightarrow>
          (case userService_signIn data of
             Inl msg \<Rightarrow>
               \<lparr>status = 401, message = msg, cookies_set = [], cookies_cleared = []\<rparr>
           | Inr (user, accessToken, refreshToken) \<Rightarrow>
               \<lparr>status = 200, message = ''Logged in'',
                cookies_set = [(accessCookieName, accessToken),
                               (refreshCookieName, refreshToken)],
                cookies_cleared = []\<rparr>))"

text \<open>
  The Express response object while a handler runs. \<^verbatim>\<open>res.status(s).json(body)\<close>
  sends the response with the headers set so far; from then on the headers are
  sent, and a call that sets a header throws \<^verbatim>\<open>ERR_HTTP_HEADERS_SENT\<close>.
  \<^verbatim>\<open>res.clearCookie(name)\<close> sets a \<^verbatim>\<open>Set-Cookie\<close> header.
\<close>

datatype express_error = ERR_HTTP_HEADERS_SENT

record res =
  headersSent :: bool
  clearCookies :: "string list"

definition res_json :: "nat \<Rightarrow> string \<Rightarrow> res \<Rightarrow> response \<times> res" where
  "res_json st msg r =
     (\<lparr>status = st, message = msg, cookies_set = [], cookies_cleared = clearCookies r\<rparr>,
      r\<lparr>headersSent := True\<rparr>)"

definition res_clearCookie :: "string \<Rightarrow> res \<Rightarrow> express_error + res" where
  "res_clearCookie name r =
     (if headersSent r then Inl ERR_HTTP_HEADERS_SENT
      else Inr (r\<lparr>clearCookies := clearCookies r @ [name]\<rparr>))"

text \<open>
  \<^verbatim>\<open>logout\<close>: \<^verbatim>\<open>req.cookies\<close> is a map from cookie names to values, and a value
  is truthy when it is there and not the empty string. The \<^verbatim>\<open>try\<close> block and the
  \<^verbatim>\<open>catch\<close> block end with \<^verbatim>\<open>return res.status(200).json(...)\<close>, which sends the
  response; the \<^verbatim>\<open>finally\<close> block runs after that, on the response object as the
  \<^verbatim>\<open>return\<close> left it, and an error thrown there is the outcome of the handler.
  The result is the response sent, the arguments \<^verbatim>\<open>userService.logout\<close> was called
  with, and how the handler ends: it returns, or it throws (its promise rejects).
\<close>

definition logout ::
  "(string \<Rightarrow> string + unit) \<Rightarrow> (string \<rightharpoonup> string)
     \<Rightarrow> response \<times> string list \<times> (express_error + unit)" where
  "logout userService_logout cookies =
     (let res0 = \<lparr>headersSent = False, clearCookies = []\<rparr>;
          refreshToken = cookies ''refreshToken'';
          (sent, calls, res1) =
            (case refreshToken of
               None \<Rightarrow>
                 (let (sent, res1) = res_json 200 ''Logged out successfully'' res0
                  in (sent, [], res1))
             | Some t \<Rightarrow>
                 if t = [] then
                   (let (sent, res1) = res_json 200 ''Logged out successfully'' res0
                    in (sent, [], res1))
                 else
                   (case userService_logout t of
                      Inr u \<Rightarrow>
                        (let (sent, res1) = res_json 200 ''Logged out successfully'' res0
                         in (sent, [t], res1))
                    | Inl e \<Rightarrow>
                        (let (sent, res1) =
                               res_json 200 ''Logged out (Server cleanup failed)'' res0
                         in (sent, [t], res1))))
      in case res_clearCookie ''accessToken'' res1 of
           Inl e \<Rightarrow> (sent, calls, Inl e)
         | Inr res2 \<Rightarrow>
             (case res_clearCookie ''refreshToken'' res2 of
                Inl e \<Rightarrow> (sent, calls, Inl e)
              | Inr res3 \<Rightarrow> (sent, calls, Inr ())))"

text \<open>The cookies a client sends back after a response: the ones the response set.\<close>

definition cookies_of :: "response \<Rightarrow> (string \<rightharpoonup> string)" where
  "cookies_of res = map_of (cookies_set res)"

subsection \<open>Two relations on databases\<close>

text \<open>
  \<open>revokes s s'\<close>: the database \<open>s'\<close> is \<open>s\<close> with some rows marked revoked and
  some rows appended. \<open>consumed k s\<close>: the record found for the fingerprint \<open>k\<close> is
  there and revoked.
\<close>

definition revokes :: "db \<Rightarrow> db \<Rightarrow> bool" where
  "revokes s s' \<longleftrightarrow> users s' = users s \<and>
     (\<exists>P ys. refreshTokens s' = map (\<lambda>r. if P r then setRevoked r else r) (refreshTokens s) @ ys)"

definition consumed :: "string \<Rightarrow> db \<Rightarrow> bool" where
  "consumed k s \<longleftrightarrow> (case findUnique_tokenHash k s of None \<Rightarrow> False | Some r \<Rightarrow> revoked r)"

subsection \<open>Concrete databases\<close>

text \<open>
  A stand-in for the hash and three small databases, for evaluating the operations.
  In \<open>db_reuse\<close> user \<open>u1\<close> has a consumed token \<open>t0\<close> and an active one \<open>t1\<close>; in
  \<open>db_expired\<close> the token \<open>t0\<close> is past its expiry at any time after 10.
\<close>

definition hash_ex :: "string \<Rightarrow> string" where
  "hash_ex rawToken = CHR ''#'' # rawToken"

text \<open>A hash with collisions: it reads the first two characters only.\<close>

definition hash_short :: "string \<Rightarrow> string" where
  "hash_short rawToken = CHR ''#'' # take 2 rawToken"

definition db_empty :: db where
  "db_empty = \<lparr>users = [''u1'', ''u2''], refreshTokens = []\<rparr>"

definition db_reuse :: db where
  "db_reuse = \<lparr>users = [''u1'', ''u2''], refreshTokens =
     [\<lparr>id_rt = ''a'', userId = ''u1'', tokenHash = ''#t0'', expiresAt = 100, revoked = True\<rparr>,
      \<lparr>id_rt = ''b'', userId = ''u1'', tokenHash = ''#t1'', expiresAt = 100, revoked = False\<rparr>]\<rparr>"

definition db_expired :: db where
  "db_expired = \<lparr>users = [''u1'', ''u2''], refreshTokens =
     [\<lparr>id_rt = ''a'', userId = ''u1'', tokenHash = ''#t0'', expiresAt = 10, revoked = False\<rparr>,
      \<lparr>id_rt = ''b'', userId = ''u1'', tokenHash = ''#t1'', expiresAt = 100, revoked = False\<rparr>]\<rparr>"

section \<open>Properties\<close>

subsection \<open>The outcomes of a rotation\<close>

lemma transaction_fail_unchanged:
  "fst (transaction callback s) = Inl e \<Longrightarrow> snd (transaction callback s) = s"
  by (auto simp: transaction_def split: prod.splits sum.splits)

lemma find_tokenHash_map:
  assumes "\<And>r. tokenHash (f r) = tokenHash r"
  shows "List.find (\<lambda>r. tokenHash r = k) (map f rs) = map_option f (List.find (\<lambda>r. tokenHash r = k) rs)"
  by (induction rs) (simp_all add: assms)

lemma find_mem: "List.find P xs = Some x \<Longrightarrow> x \<in> set xs \<and> P x"
  by (induction xs) (auto split: if_splits)

lemma find_id_mem:
  "r \<in> set rs \<Longrightarrow> \<exists>r'. List.find (\<lambda>x. id_rt x = id_rt r) rs = Some r'"
  by (cases "List.find (\<lambda>x. id_rt x = id_rt r) rs") (auto simp: find_None_iff)

lemma update_revoked_mem:
  assumes "r \<in> set (refreshTokens s)"
  shows "\<exists>u. update_revoked (id_rt r) s =
    (Inr u, s\<lparr>refreshTokens := map (\<lambda>x. if id_rt x = id_rt r then setRevoked x else x) (refreshTokens s)\<rparr>)"
  using find_id_mem [OF assms] by (auto simp: update_revoked_def)

lemma rotate_invalid:
  assumes "findUnique_tokenHash (hashToken oldRawToken) s = None"
  shows "rotateRefreshToken hashToken oldRawToken uid newExpiresAt now newRaw newId s = (Inl InvalidToken, s)"
  using assms by (simp add: rotateRefreshToken_def transaction_def rotateCallback_def)

lemma rotate_reuse:
  assumes "findUnique_tokenHash (hashToken oldRawToken) s = Some old" "revoked old"
  shows "rotateRefreshToken hashToken oldRawToken uid newExpiresAt now newRaw newId s = (Inl ReuseDetected, s)"
  using assms by (simp add: rotateRefreshToken_def transaction_def rotateCallback_def)

lemma rotate_expired:
  assumes "findUnique_tokenHash (hashToken oldRawToken) s = Some old" "\<not> revoked old" "expiresAt old < now"
  shows "rotateRefreshToken hashToken oldRawToken uid newExpiresAt now newRaw newId s = (Inl Expired, s)"
proof -
  have "old \<in> set (refreshTokens s)"
    using assms(1) find_mem by (fastforce simp: findUnique_tokenHash_def)
  from update_revoked_mem [OF this] obtain u where
    "update_revoked (id_rt old) s = (Inr u, s\<lparr>refreshTokens := map (\<lambda>x. if id_rt x = id_rt old then setRevoked x else x) (refreshTokens s)\<rparr>)"
    by blast
  with assms show ?thesis
    by (simp add: rotateRefreshToken_def transaction_def rotateCallback_def)
qed

lemma rotate_create_fails:
  assumes "findUnique_tokenHash (hashToken oldRawToken) s = Some old" "\<not> revoked old" "\<not> expiresAt old < now"
    and "create_rt newId uid (hashToken newRaw) newExpiresAt s = (Inl e, s1)"
  shows "rotateRefreshToken hashToken oldRawToken uid newExpiresAt now newRaw newId s = (Inl e, s)"
  using assms by (simp add: rotateRefreshToken_def transaction_def rotateCallback_def)

lemma rotate_success:
  assumes f: "findUnique_tokenHash (hashToken oldRawToken) s = Some old" 
    and a: "\<not> revoked old" "\<not> expiresAt old < now"
    and u: "uid \<in> set (users s)"
    and n: "\<forall>r \<in> set (refreshTokens s). id_rt r \<noteq> newId \<and> tokenHash r \<noteq> hashToken newRaw"
  shows "rotateRefreshToken hashToken oldRawToken uid newExpiresAt now newRaw newId s =
     (Inr (newRaw, \<lparr>id_rt = newId, userId = uid, tokenHash = hashToken newRaw,
                   expiresAt = newExpiresAt, revoked = False\<rparr>),
      s\<lparr>refreshTokens := map (\<lambda>x. if id_rt x = id_rt old then setRevoked x else x) (refreshTokens s)
           @ [\<lparr>id_rt = newId, userId = uid, tokenHash = hashToken newRaw,
                   expiresAt = newExpiresAt, revoked = False\<rparr>]\<rparr>)"
proof -
  let ?new = "\<lparr>id_rt = newId, userId = uid, tokenHash = hashToken newRaw,
                   expiresAt = newExpiresAt, revoked = False\<rparr>"
  let ?s1 = "s\<lparr>refreshTokens := refreshTokens s @ [?new]\<rparr>"
  have mem: "old \<in> set (refreshTokens s)"
    using f find_mem by (fastforce simp: findUnique_tokenHash_def)
  have c: "create_rt newId uid (hashToken newRaw) newExpiresAt s = (Inr ?new, ?s1)"
    using u n by (auto simp: create_rt_def Let_def)
  have "old \<in> set (refreshTokens ?s1)" using mem by simp
  from update_revoked_mem [OF this] obtain v where
    up: "update_revoked (id_rt old) ?s1 =
      (Inr v, ?s1\<lparr>refreshTokens := map (\<lambda>x. if id_rt x = id_rt old then setRevoked x else x) (refreshTokens ?s1)\<rparr>)"
    by blast
  have ne: "newId \<noteq> id_rt old" using n mem by auto
  show ?thesis
    using f a c up ne
    by (simp add: rotateRefreshToken_def transaction_def rotateCallback_def)
qed

lemma find_append_Some:
  "List.find P xs = Some x \<Longrightarrow> List.find P (xs @ ys) = Some x"
  by (induction xs) (auto split: if_splits)

lemma find_append_None:
  "List.find P xs = None \<Longrightarrow> List.find P (xs @ ys) = List.find P ys"
  by (induction xs) (auto split: if_splits)

lemma tokenHash_setRevoked [simp]: "tokenHash (setRevoked r) = tokenHash r"
  by (simp add: setRevoked_def)

lemma revoked_setRevoked [simp]: "revoked (setRevoked r)"
  by (simp add: setRevoked_def)

lemma find_tokenHash_revoke:
  "List.find (\<lambda>r. tokenHash r = k) (map (\<lambda>r. if P r then setRevoked r else r) rs) =
   map_option (\<lambda>r. if P r then setRevoked r else r) (List.find (\<lambda>r. tokenHash r = k) rs)"
  by (rule find_tokenHash_map) simp

lemma rotate_Inr:
  assumes "fst (rotateRefreshToken hashToken oldRawToken uid newExpiresAt now newRaw newId s) = Inr x"
  shows "\<exists>old. findUnique_tokenHash (hashToken oldRawToken) s = Some old \<and> \<not> revoked old \<and>
           \<not> expiresAt old < now \<and> uid \<in> set (users s) \<and>
           (\<forall>r \<in> set (refreshTokens s). id_rt r \<noteq> newId \<and> tokenHash r \<noteq> hashToken newRaw) \<and>
           rotateRefreshToken hashToken oldRawToken uid newExpiresAt now newRaw newId s =
            (Inr (newRaw, \<lparr>id_rt = newId, userId = uid, tokenHash = hashToken newRaw,
                   expiresAt = newExpiresAt, revoked = False\<rparr>),
             s\<lparr>refreshTokens := map (\<lambda>x. if id_rt x = id_rt old then setRevoked x else x) (refreshTokens s)
               @ [\<lparr>id_rt = newId, userId = uid, tokenHash = hashToken newRaw,
                   expiresAt = newExpiresAt, revoked = False\<rparr>]\<rparr>)"
proof (cases "findUnique_tokenHash (hashToken oldRawToken) s")
  case None
  from rotate_invalid [where hashToken = hashToken and oldRawToken = oldRawToken, OF this] assms
  show ?thesis by simp
next
  case (Some old)
  show ?thesis
  proof (cases "revoked old")
    case True
    from rotate_reuse [where hashToken = hashToken and oldRawToken = oldRawToken, OF Some this] assms
    show ?thesis by simp
  next
    case nrev: False
    show ?thesis
    proof (cases "expiresAt old < now")
      case True
      from rotate_expired [where hashToken = hashToken and oldRawToken = oldRawToken, OF Some nrev this] assms
      show ?thesis by simp
    next
      case nexp: False
      show ?thesis
      proof (cases "create_rt newId uid (hashToken newRaw) newExpiresAt s")
        case (Pair res s1)
        show ?thesis
        proof (cases res)
          case (Inl e)
          with Pair rotate_create_fails [where hashToken = hashToken and oldRawToken = oldRawToken
              and newRaw = newRaw, OF Some nrev nexp] assms
          show ?thesis by simp
        next
          case (Inr r)
          with Pair have u: "uid \<in> set (users s)"
            and n: "\<forall>r \<in> set (refreshTokens s). id_rt r \<noteq> newId \<and> tokenHash r \<noteq> hashToken newRaw"
            by (auto simp: create_rt_def split: if_splits)
          from rotate_success [where hashToken = hashToken and oldRawToken = oldRawToken
              and newRaw = newRaw, OF Some nrev nexp u n] Some nrev nexp u n
          show ?thesis by blast
        qed
      qed
    qed
  qed
qed

text \<open>A transaction that throws leaves the database as it found it.\<close>

lemma rotate_fail_unchanged:
  assumes "fst (rotateRefreshToken hashToken oldRawToken uid newExpiresAt now newRaw newId s) = Inl e"
  shows "snd (rotateRefreshToken hashToken oldRawToken uid newExpiresAt now newRaw newId s) = s"
  using assms unfolding rotateRefreshToken_def Let_def by (rule transaction_fail_unchanged)

lemmas ex_defs = hash_ex_def db_empty_def db_reuse_def db_expired_def

lemmas op_defs = rotateRefreshToken_def transaction_def rotateCallback_def
  findUnique_tokenHash_def updateMany_revoked_def update_revoked_def create_rt_def
  setRevoked_def createRefreshToken_def revokeRefreshTokenById_def
  revokeAllRefreshTokensForUser_def findRefreshTokenByRaw_def Let_def

subsection \<open>Replay of a revoked token\<close>

text \<open>
  Claim C1: rotation with the raw secret of a revoked record fails with
  \<open>ReuseDetected\<close>, and afterwards every record of that user is revoked. The code
  at a failing input: in \<open>db_reuse\<close> user \<open>u1\<close> owns the revoked token \<open>t0\<close> and the
  active token \<open>t1\<close>. Replaying \<open>t0\<close> fails with \<open>ReuseDetected\<close>, and the callback
  has revoked both records when it throws; the throw is inside the transaction, so
  the database after the call is \<open>db_reuse\<close> again and \<open>t1\<close> is still active.
\<close>

theorem reuse_cascade_rolled_back:
  "rotateRefreshToken hash_ex ''t0'' ''u1'' 200 50 ''t9'' ''z'' db_reuse = (Inl ReuseDetected, db_reuse)
   \<and> map userId (refreshTokens db_reuse) = [''u1'', ''u1'']
   \<and> map revoked (refreshTokens db_reuse) = [True, False]
   \<and> map revoked (refreshTokens (snd (rotateCallback hash_ex (hash_ex ''t0'') ''u1'' 200 50 ''t9'' ''z'' db_reuse)))
       = [True, True]"
  by (simp add: ex_defs op_defs)

subsection \<open>Rotation of an expired token\<close>

text \<open>
  Claim C4: rotation of an expired, not revoked record fails with \<open>Expired\<close>, that
  record ends up revoked, and no other record changes. The code at a failing input:
  in \<open>db_expired\<close> the token \<open>t0\<close> expired at 10 and the time is 50. The rotation
  fails with \<open>Expired\<close>, and the callback has revoked the record of \<open>t0\<close> (and no
  other) when it throws; the transaction rolls that back, so the record of \<open>t0\<close> is
  still not revoked after the call.
\<close>

theorem expired_revoke_rolled_back:
  "rotateRefreshToken hash_ex ''t0'' ''u1'' 200 50 ''t9'' ''z'' db_expired = (Inl Expired, db_expired)
   \<and> map revoked (refreshTokens db_expired) = [False, False]
   \<and> map revoked (refreshTokens (snd (rotateCallback hash_ex (hash_ex ''t0'') ''u1'' 200 50 ''t9'' ''z'' db_expired)))
       = [True, False]"
  by (simp add: ex_defs op_defs)

subsection \<open>What a successful rotation has checked\<close>

text \<open>
  Claim C3, as stated, fails: a rotation succeeds although the record found for the
  old fingerprint is owned by another user than the \<^verbatim>\<open>userId\<close> argument. In
  \<open>db_reuse\<close> the token \<open>t1\<close> belongs to \<open>u1\<close>; the call with \<^verbatim>\<open>userId\<close> \<open>u2\<close>
  succeeds and returns a new record of \<open>u2\<close>.
\<close>

theorem rotate_other_owner_succeeds:
  "findUnique_tokenHash (hash_ex ''t1'') db_reuse =
     Some \<lparr>id_rt = ''b'', userId = ''u1'', tokenHash = ''#t1'', expiresAt = 100, revoked = False\<rparr>
   \<and> fst (rotateRefreshToken hash_ex ''t1'' ''u2'' 200 50 ''t9'' ''z'' db_reuse) =
     Inr (''t9'', \<lparr>id_rt = ''z'', userId = ''u2'', tokenHash = ''#t9'', expiresAt = 200, revoked = False\<rparr>)"
  by (simp add: ex_defs op_defs)

text \<open>
  Claim C3, amended: a rotation succeeds only if the record found for the old
  fingerprint is there, not revoked and not expired at the time of the call; the
  owner of that record is not compared with the \<^verbatim>\<open>userId\<close> argument, which
  becomes the owner of the new record.
\<close>

theorem rotate_succeeds_only_if_active:
  assumes "fst (rotateRefreshToken hashToken oldRawToken uid newExpiresAt now newRaw newId s)
             = Inr (raw', newRecord)"
  shows "\<exists>old. findUnique_tokenHash (hashToken oldRawToken) s = Some old \<and> \<not> revoked old \<and>
           \<not> expiresAt old < now \<and> userId newRecord = uid"
proof -
  from rotate_Inr [OF assms] obtain old where
    old: "findUnique_tokenHash (hashToken oldRawToken) s = Some old" "\<not> revoked old"
      "\<not> expiresAt old < now"
    and eq: "fst (rotateRefreshToken hashToken oldRawToken uid newExpiresAt now newRaw newId s) =
       Inr (newRaw, \<lparr>id_rt = newId, userId = uid, tokenHash = hashToken newRaw,
                     expiresAt = newExpiresAt, revoked = False\<rparr>)"
    by force
  from eq assms have "userId newRecord = uid" by auto
  with old show ?thesis by blast
qed

text \<open>
  Claim C3, amended, at a concrete input: the successful call on \<open>db_reuse\<close> above.
\<close>

theorem rotate_succeeds_only_if_active_witness:
  "fst (rotateRefreshToken hash_ex ''t1'' ''u2'' 200 50 ''t9'' ''z'' db_reuse) =
     Inr (''t9'', \<lparr>id_rt = ''z'', userId = ''u2'', tokenHash = ''#t9'', expiresAt = 200, revoked = False\<rparr>)
   \<and> (\<exists>old. findUnique_tokenHash (hash_ex ''t1'') db_reuse = Some old \<and> \<not> revoked old \<and>
           \<not> expiresAt old < 50 \<and>
           userId \<lparr>id_rt = ''z'', userId = ''u2'', tokenHash = ''#t9'', expiresAt = 200, revoked = False\<rparr> = ''u2'')"
proof -
  have h: "fst (rotateRefreshToken hash_ex ''t1'' ''u2'' 200 50 ''t9'' ''z'' db_reuse) =
     Inr (''t9'', \<lparr>id_rt = ''z'', userId = ''u2'', tokenHash = ''#t9'', expiresAt = 200, revoked = False\<rparr>)"
    by (simp add: ex_defs op_defs)
  from h rotate_succeeds_only_if_active [OF h] show ?thesis by blast
qed

subsection \<open>A successful rotation\<close>

text \<open>
  Claim C5: when a rotation succeeds, both of its effects are in the database: the
  new record, not revoked, of the given user, with the hash of the returned raw
  secret and the expiry \<^verbatim>\<open>newExpiresAt\<close>, is appended and is the record found for
  its hash; the old record is marked revoked and is the record found for the old
  hash; no other row is added or removed.
\<close>

theorem rotate_all_or_nothing:
  assumes "rotateRefreshToken hashToken oldRawToken uid newExpiresAt now newRaw newId s
             = (Inr (raw', newRecord), s')"
  shows "\<exists>old. findUnique_tokenHash (hashToken oldRawToken) s = Some old \<and> \<not> revoked old \<and>
     newRecord = \<lparr>id_rt = newId, userId = uid, tokenHash = hashToken raw',
                  expiresAt = newExpiresAt, revoked = False\<rparr> \<and>
     refreshTokens s' =
       map (\<lambda>r. if id_rt r = id_rt old then setRevoked r else r) (refreshTokens s) @ [newRecord] \<and>
     findUnique_tokenHash (hashToken raw') s' = Some newRecord \<and>
     findUnique_tokenHash (hashToken oldRawToken) s' = Some (setRevoked old)"
proof -
  from assms have "fst (rotateRefreshToken hashToken oldRawToken uid newExpiresAt now newRaw newId s)
      = Inr (raw', newRecord)" by simp
  from rotate_Inr [OF this] obtain old where
    f: "findUnique_tokenHash (hashToken oldRawToken) s = Some old" and nr: "\<not> revoked old"
    and n: "\<forall>r \<in> set (refreshTokens s). id_rt r \<noteq> newId \<and> tokenHash r \<noteq> hashToken newRaw"
    and eq: "rotateRefreshToken hashToken oldRawToken uid newExpiresAt now newRaw newId s =
            (Inr (newRaw, \<lparr>id_rt = newId, userId = uid, tokenHash = hashToken newRaw,
                   expiresAt = newExpiresAt, revoked = False\<rparr>),
             s\<lparr>refreshTokens := map (\<lambda>x. if id_rt x = id_rt old then setRevoked x else x) (refreshTokens s)
               @ [\<lparr>id_rt = newId, userId = uid, tokenHash = hashToken newRaw,
                   expiresAt = newExpiresAt, revoked = False\<rparr>]\<rparr>)"
    by blast
  let ?f = "\<lambda>r. if id_rt r = id_rt old then setRevoked r else r"
  from eq assms have raw: "raw' = newRaw"
    and new: "newRecord = \<lparr>id_rt = newId, userId = uid, tokenHash = hashToken raw',
                  expiresAt = newExpiresAt, revoked = False\<rparr>"
    and s': "refreshTokens s' = map ?f (refreshTokens s) @ [newRecord]"
    by auto
  have "List.find (\<lambda>r. tokenHash r = hashToken newRaw) (refreshTokens s) = None"
    using n by (simp add: find_None_iff)
  then have "List.find (\<lambda>r. tokenHash r = hashToken newRaw) (map ?f (refreshTokens s)) = None"
    by (simp add: find_tokenHash_revoke)
  from find_append_None [OF this] have fn: "findUnique_tokenHash (hashToken raw') s' = Some newRecord"
    using raw new s' by (simp add: findUnique_tokenHash_def)
  have "List.find (\<lambda>r. tokenHash r = hashToken oldRawToken) (map ?f (refreshTokens s)) = Some (setRevoked old)"
    using f by (simp add: find_tokenHash_revoke findUnique_tokenHash_def)
  from find_append_Some [OF this] have fo: "findUnique_tokenHash (hashToken oldRawToken) s' = Some (setRevoked old)"
    using s' by (simp add: findUnique_tokenHash_def)
  from f nr new s' fn fo show ?thesis by blast
qed

text \<open>Claim C5 at a concrete input: rotating the active token \<open>t1\<close> of \<open>db_reuse\<close>.\<close>

theorem rotate_all_or_nothing_witness:
  "rotateRefreshToken hash_ex ''t1'' ''u1'' 200 50 ''t9'' ''z'' db_reuse =
     (Inr (''t9'', \<lparr>id_rt = ''z'', userId = ''u1'', tokenHash = ''#t9'', expiresAt = 200, revoked = False\<rparr>),
      \<lparr>users = [''u1'', ''u2''], refreshTokens =
       [\<lparr>id_rt = ''a'', userId = ''u1'', tokenHash = ''#t0'', expiresAt = 100, revoked = True\<rparr>,
        \<lparr>id_rt = ''b'', userId = ''u1'', tokenHash = ''#t1'', expiresAt = 100, revoked = True\<rparr>,
        \<lparr>id_rt = ''z'', userId = ''u1'', tokenHash = ''#t9'', expiresAt = 200, revoked = False\<rparr>]\<rparr>)
   \<and> (\<exists>old. findUnique_tokenHash (hash_ex ''t1'') db_reuse = Some old \<and> \<not> revoked old \<and>
     findUnique_tokenHash (hash_ex ''t9'')
       \<lparr>users = [''u1'', ''u2''], refreshTokens =
       [\<lparr>id_rt = ''a'', userId = ''u1'', tokenHash = ''#t0'', expiresAt = 100, revoked = True\<rparr>,
        \<lparr>id_rt = ''b'', userId = ''u1'', tokenHash = ''#t1'', expiresAt = 100, revoked = True\<rparr>,
        \<lparr>id_rt = ''z'', userId = ''u1'', tokenHash = ''#t9'', expiresAt = 200, revoked = False\<rparr>]\<rparr>
       = Some \<lparr>id_rt = ''z'', userId = ''u1'', tokenHash = ''#t9'', expiresAt = 200, revoked = False\<rparr> \<and>
     findUnique_tokenHash (hash_ex ''t1'')
       \<lparr>users = [''u1'', ''u2''], refreshTokens =
       [\<lparr>id_rt = ''a'', userId = ''u1'', tokenHash = ''#t0'', expiresAt = 100, revoked = True\<rparr>,
        \<lparr>id_rt = ''b'', userId = ''u1'', tokenHash = ''#t1'', expiresAt = 100, revoked = True\<rparr>,
        \<lparr>id_rt = ''z'', userId = ''u1'', tokenHash = ''#t9'', expiresAt = 200, revoked = False\<rparr>]\<rparr>
       = Some (setRevoked old))"
proof -
  have h: "rotateRefreshToken hash_ex ''t1'' ''u1'' 200 50 ''t9'' ''z'' db_reuse =
     (Inr (''t9'', \<lparr>id_rt = ''z'', userId = ''u1'', tokenHash = ''#t9'', expiresAt = 200, revoked = False\<rparr>),
      \<lparr>users = [''u1'', ''u2''], refreshTokens =
       [\<lparr>id_rt = ''a'', userId = ''u1'', tokenHash = ''#t0'', expiresAt = 100, revoked = True\<rparr>,
        \<lparr>id_rt = ''b'', userId = ''u1'', tokenHash = ''#t1'', expiresAt = 100, revoked = True\<rparr>,
        \<lparr>id_rt = ''z'', userId = ''u1'', tokenHash = ''#t9'', expiresAt = 200, revoked = False\<rparr>]\<rparr>)"
    by (simp add: ex_defs op_defs)
  from h rotate_all_or_nothing [OF h] show ?thesis by blast
qed

subsection \<open>Every call only revokes and appends\<close>

lemma revokes_refl: "revokes s s"
  unfolding revokes_def
  by (rule conjI, simp, rule exI [of _ "\<lambda>r. False"], rule exI [of _ "[]"], simp)

lemma revokes_map:
  "revokes s (s\<lparr>refreshTokens := map (\<lambda>r. if P r then setRevoked r else r) (refreshTokens s) @ ys\<rparr>)"
  unfolding revokes_def by auto

lemma revokes_map0:
  "revokes s (s\<lparr>refreshTokens := map (\<lambda>r. if P r then setRevoked r else r) (refreshTokens s)\<rparr>)"
  using revokes_map [of s P "[]"] by simp

lemma revokes_append:
  "revokes s (s\<lparr>refreshTokens := refreshTokens s @ ys\<rparr>)"
  using revokes_map [of s "\<lambda>r. False" ys] by simp

lemma create_rt_revokes: "revokes s (snd (create_rt newId uid th e s))"
  by (simp add: create_rt_def Let_def revokes_refl revokes_append)

lemma update_revoked_revokes: "revokes s (snd (update_revoked i s))"
  by (simp add: update_revoked_def revokes_refl revokes_map0 split: option.split)

lemma updateMany_revoked_revokes: "revokes s (snd (updateMany_revoked wh s))"
  by (simp add: updateMany_revoked_def revokes_map0)

lemma rotate_revokes:
  "revokes s (snd (rotateRefreshToken hashToken oldRawToken uid newExpiresAt now newRaw newId s))"
proof (cases "fst (rotateRefreshToken hashToken oldRawToken uid newExpiresAt now newRaw newId s)")
  case (Inl e)
  from rotate_fail_unchanged [OF this] show ?thesis by (simp add: revokes_refl)
next
  case (Inr x)
  from rotate_Inr [OF this] obtain old where
    "findUnique_tokenHash (hashToken oldRawToken) s = Some old" and
    "rotateRefreshToken hashToken oldRawToken uid newExpiresAt now newRaw newId s =
            (Inr (newRaw, \<lparr>id_rt = newId, userId = uid, tokenHash = hashToken newRaw,
                   expiresAt = newExpiresAt, revoked = False\<rparr>),
             s\<lparr>refreshTokens := map (\<lambda>x. if id_rt x = id_rt old then setRevoked x else x) (refreshTokens s)
               @ [\<lparr>id_rt = newId, userId = uid, tokenHash = hashToken newRaw,
                   expiresAt = newExpiresAt, revoked = False\<rparr>]\<rparr>)"
    by blast
  then show ?thesis by (simp add: revokes_map)
qed

lemma step_revokes: "revokes s (step hashToken s c)"
  by (cases c)
    (simp_all add: createRefreshToken_def revokeRefreshTokenById_def
       revokeAllRefreshTokensForUser_def create_rt_revokes update_revoked_revokes
       updateMany_revoked_revokes rotate_revokes revokes_refl)

lemma row_later_refl: "row_later r r" by (simp add: row_later_def)

lemma row_later_setRevoked: "row_later r (setRevoked r)" by (simp add: row_later_def setRevoked_def)

lemma revokes_monotonic:
  assumes "revokes s s'"
  shows "revoked_monotonic (refreshTokens s) (refreshTokens s')"
proof -
  from assms obtain P ys where
    eq: "refreshTokens s' = map (\<lambda>r. if P r then setRevoked r else r) (refreshTokens s) @ ys"
    unfolding revokes_def by blast
  have "list_all2 row_later rs (map (\<lambda>r. if P r then setRevoked r else r) rs)" for rs
    by (induction rs) (simp_all add: row_later_refl row_later_setRevoked)
  with eq show ?thesis by (simp add: revoked_monotonic_def)
qed

text \<open>
  Claim C7: the revoked flag is monotonic. Whatever the call (create, find, revoke,
  revoke all, rotate) and whatever its outcome, every row of the table before the
  call is still there after it, at its place and with its fields, and is revoked
  after the call if it was revoked before.
\<close>

theorem revoked_never_reverts:
  "revoked_monotonic (refreshTokens s) (refreshTokens (step hashToken s c))"
  by (rule revokes_monotonic) (rule step_revokes)

text \<open>
  Claim C7 at a concrete input: revoking all tokens of \<open>u1\<close> in \<open>db_reuse\<close> keeps the
  revoked record revoked and revokes the active one.
\<close>

theorem revoked_never_reverts_witness:
  "revoked_monotonic (refreshTokens db_reuse) (refreshTokens (step hash_ex db_reuse (RevokeAll ''u1'')))
   \<and> map revoked (refreshTokens db_reuse) = [True, False]
   \<and> map revoked (refreshTokens (step hash_ex db_reuse (RevokeAll ''u1''))) = [True, True]"
  using revoked_never_reverts [of db_reuse hash_ex "RevokeAll ''u1''"]
  by (simp add: ex_defs op_defs)

subsection \<open>A consumed token stays consumed\<close>

lemma consumed_revokes:
  assumes "consumed k s" "revokes s s'"
  shows "consumed k s'"
proof -
  from assms(2) obtain P ys where
    eq: "refreshTokens s' = map (\<lambda>r. if P r then setRevoked r else r) (refreshTokens s) @ ys"
    unfolding revokes_def by blast
  from assms(1) obtain r where r: "List.find (\<lambda>r. tokenHash r = k) (refreshTokens s) = Some r" "revoked r"
    by (auto simp: consumed_def findUnique_tokenHash_def split: option.splits)
  let ?f = "\<lambda>r. if P r then setRevoked r else r"
  from r(1) have "List.find (\<lambda>r. tokenHash r = k) (map ?f (refreshTokens s)) = Some (?f r)"
    by (simp add: find_tokenHash_revoke)
  from find_append_Some [OF this] have "List.find (\<lambda>r. tokenHash r = k) (refreshTokens s') = Some (?f r)"
    using eq by simp
  with r(2) show ?thesis by (simp add: consumed_def findUnique_tokenHash_def)
qed

lemma consumed_run: "consumed k s \<Longrightarrow> consumed k (run hashToken s cs)"
  unfolding run_def
  by (induction cs arbitrary: s) (auto intro: consumed_revokes step_revokes)

lemma consumed_rotate:
  assumes "consumed (hashToken oldRawToken) s"
  shows "rotateRefreshToken hashToken oldRawToken uid newExpiresAt now newRaw newId s = (Inl ReuseDetected, s)"
proof -
  from assms obtain r where "findUnique_tokenHash (hashToken oldRawToken) s = Some r" "revoked r"
    by (auto simp: consumed_def split: option.splits)
  then show ?thesis by (rule rotate_reuse)
qed

text \<open>
  Claim C2: for a token that was issued (\<^verbatim>\<open>createRefreshToken\<close> succeeded) and has
  not expired, the first rotation with its raw secret succeeds, given that the
  database accepts the new row (the new identifier and the new fingerprint are not
  in the table). After that, a rotation with the original raw secret fails with
  \<open>ReuseDetected\<close>, whatever calls were made in between and whatever its other
  arguments are.
\<close>

theorem issued_token_rotates_once:
  assumes issue: "createRefreshToken hashToken uid rawToken expires newId0 s0 = (Inr r0, s1)"
    and fresh: "\<not> expires < now"
    and new: "\<forall>r \<in> set (refreshTokens s1). id_rt r \<noteq> newId \<and> tokenHash r \<noteq> hashToken newRaw"
  shows "\<exists>newRecord s2.
           rotateRefreshToken hashToken rawToken uid newExpiresAt now newRaw newId s1
             = (Inr (newRaw, newRecord), s2) \<and>
           (\<forall>cs uid' newExpiresAt' now' newRaw' newId'.
              fst (rotateRefreshToken hashToken rawToken uid' newExpiresAt' now' newRaw' newId'
                     (run hashToken s2 cs)) = Inl ReuseDetected)"
proof -
  let ?r0 = "\<lparr>id_rt = newId0, userId = uid, tokenHash = hashToken rawToken,
              expiresAt = expires, revoked = False\<rparr>"
  from issue have u: "uid \<in> set (users s0)"
    and none: "\<forall>r \<in> set (refreshTokens s0). tokenHash r \<noteq> hashToken rawToken"
    and s1: "s1 = s0\<lparr>refreshTokens := refreshTokens s0 @ [?r0]\<rparr>"
    by (auto simp: createRefreshToken_def create_rt_def Let_def split: if_splits)
  from none have "List.find (\<lambda>r. tokenHash r = hashToken rawToken) (refreshTokens s0) = None"
    by (simp add: find_None_iff)
  from find_append_None [OF this] s1
  have f: "findUnique_tokenHash (hashToken rawToken) s1 = Some ?r0"
    by (simp add: findUnique_tokenHash_def)
  have a: "\<not> revoked ?r0" "\<not> expiresAt ?r0 < now" using fresh by simp_all
  from u s1 have u1: "uid \<in> set (users s1)" by simp
  let ?new = "\<lparr>id_rt = newId, userId = uid, tokenHash = hashToken newRaw,
                   expiresAt = newExpiresAt, revoked = False\<rparr>"
  let ?s2 = "s1\<lparr>refreshTokens := map (\<lambda>x. if id_rt x = id_rt ?r0 then setRevoked x else x) (refreshTokens s1) @ [?new]\<rparr>"
  have rot: "rotateRefreshToken hashToken rawToken uid newExpiresAt now newRaw newId s1 = (Inr (newRaw, ?new), ?s2)"
    by (rule rotate_success [where hashToken = hashToken and oldRawToken = rawToken and newRaw = newRaw,
          OF f a u1 new])
  then have "rotateRefreshToken hashToken rawToken uid newExpiresAt now newRaw newId s1
     = (Inr (raw', newRecord), s') \<Longrightarrow> findUnique_tokenHash (hashToken rawToken) s' = Some (setRevoked ?r0)"
    for raw' newRecord s'
    using f by (auto simp: findUnique_tokenHash_def find_tokenHash_revoke intro!: find_append_Some)
  with rot have "findUnique_tokenHash (hashToken rawToken) ?s2 = Some (setRevoked ?r0)" by blast
  then have "consumed (hashToken rawToken) ?s2" by (simp add: consumed_def)
  then have "consumed (hashToken rawToken) (run hashToken ?s2 cs)" for cs
    by (rule consumed_run)
  from consumed_rotate [where hashToken = hashToken and oldRawToken = rawToken, OF this] rot
  show ?thesis by simp
qed

text \<open>
  Claim C2 at a concrete input: the token \<open>t0\<close> issued to \<open>u1\<close> in the empty table
  and rotated at time 50.
\<close>

theorem issued_token_rotates_once_witness:
  "createRefreshToken hash_ex ''u1'' ''t0'' 100 ''a'' db_empty =
     (Inr \<lparr>id_rt = ''a'', userId = ''u1'', tokenHash = ''#t0'', expiresAt = 100, revoked = False\<rparr>,
      \<lparr>users = [''u1'', ''u2''], refreshTokens =
        [\<lparr>id_rt = ''a'', userId = ''u1'', tokenHash = ''#t0'', expiresAt = 100, revoked = False\<rparr>]\<rparr>)
   \<and> \<not> (100::int) < 50
   \<and> ''b'' \<notin> id_rt ` set (refreshTokens \<lparr>users = [''u1'', ''u2''], refreshTokens =
        [\<lparr>id_rt = ''a'', userId = ''u1'', tokenHash = ''#t0'', expiresAt = 100, revoked = False\<rparr>]\<rparr>)
   \<and> hash_ex ''t1'' \<notin> tokenHash ` set (refreshTokens \<lparr>users = [''u1'', ''u2''], refreshTokens =
        [\<lparr>id_rt = ''a'', userId = ''u1'', tokenHash = ''#t0'', expiresAt = 100, revoked = False\<rparr>]\<rparr>)
   \<and> (\<exists>newRecord s2.
           rotateRefreshToken hash_ex ''t0'' ''u1'' 200 50 ''t1'' ''b''
             \<lparr>users = [''u1'', ''u2''], refreshTokens =
               [\<lparr>id_rt = ''a'', userId = ''u1'', tokenHash = ''#t0'', expiresAt = 100, revoked = False\<rparr>]\<rparr>
             = (Inr (''t1'', newRecord), s2) \<and>
           (\<forall>cs uid' newExpiresAt' now' newRaw' newId'.
              fst (rotateRefreshToken hash_ex ''t0'' uid' newExpiresAt' now' newRaw' newId'
                     (run hash_ex s2 cs)) = Inl ReuseDetected))"
proof -
  let ?s1 = "\<lparr>users = [''u1'', ''u2''], refreshTokens =
        [\<lparr>id_rt = ''a'', userId = ''u1'', tokenHash = ''#t0'', expiresAt = 100, revoked = False\<rparr>]\<rparr>"
  have a: "createRefreshToken hash_ex ''u1'' ''t0'' 100 ''a'' db_empty =
     (Inr \<lparr>id_rt = ''a'', userId = ''u1'', tokenHash = ''#t0'', expiresAt = 100, revoked = False\<rparr>, ?s1)"
    by (simp add: ex_defs op_defs)
  have b: "\<not> (100::int) < 50" by simp
  have c: "\<forall>r \<in> set (refreshTokens ?s1). id_rt r \<noteq> ''b'' \<and> tokenHash r \<noteq> hash_ex ''t1''"
    by (simp add: ex_defs)
  have d: "''b'' \<notin> id_rt ` set (refreshTokens ?s1)"
    and e: "hash_ex ''t1'' \<notin> tokenHash ` set (refreshTokens ?s1)"
    by (simp_all add: ex_defs)
  from a b d e issued_token_rotates_once [OF a b c, of 200] show ?thesis by (intro conjI)
qed

subsection \<open>Revoking twice\<close>

lemma id_rt_setRevoked [simp]: "id_rt (setRevoked r) = id_rt r"
  by (simp add: setRevoked_def)

lemma setRevoked_idem [simp]: "setRevoked (setRevoked r) = setRevoked r"
  by (simp add: setRevoked_def)

lemma find_id_map:
  "List.find (\<lambda>r. id_rt r = i) (map (\<lambda>r. if P r then setRevoked r else r) rs) =
   map_option (\<lambda>r. if P r then setRevoked r else r) (List.find (\<lambda>r. id_rt r = i) rs)"
  by (induction rs) simp_all

lemma update_revoked_twice:
  assumes "update_revoked i s = (Inr u, s1)"
  shows "update_revoked i s1 = (Inr u, s1)"
proof -
  let ?f = "\<lambda>r. if id_rt r = i then setRevoked r else r"
  from assms obtain r where r: "List.find (\<lambda>r. id_rt r = i) (refreshTokens s) = Some r"
    and u: "u = setRevoked r" and s1: "s1 = s\<lparr>refreshTokens := map ?f (refreshTokens s)\<rparr>"
    by (auto simp: update_revoked_def split: option.splits)
  from r have i: "id_rt r = i" by (auto dest: find_mem)
  from r have "List.find (\<lambda>r. id_rt r = i) (refreshTokens s1) = Some (?f r)"
    by (simp add: s1 find_id_map)
  moreover have "map ?f (map ?f rs) = map ?f rs" for rs by (induction rs) simp_all
  ultimately show ?thesis using i u s1 by (simp add: update_revoked_def)
qed

text \<open>
  Claim C9: \<^verbatim>\<open>revokeRefreshTokenById\<close> called twice on an existing token raises no
  error either time and the second call leaves the database as the first left it;
  \<^verbatim>\<open>revokeAllRefreshTokensForUser\<close> (which raises no error) called twice for a user
  leaves the database as the first call left it.
\<close>

theorem revoke_idempotent:
  "(r \<in> set (refreshTokens s) \<longrightarrow>
      (\<exists>u s1. revokeRefreshTokenById (id_rt r) opts s = (Inr u, s1) \<and>
               revokeRefreshTokenById (id_rt r) opts s1 = (Inr u, s1)))
   \<and> snd (revokeAllRefreshTokensForUser uid (snd (revokeAllRefreshTokensForUser uid s)))
       = snd (revokeAllRefreshTokensForUser uid s)"
proof (intro conjI impI)
  assume "r \<in> set (refreshTokens s)"
  from update_revoked_mem [OF this] obtain u s1 where 1: "update_revoked (id_rt r) s = (Inr u, s1)"
    by blast
  from update_revoked_twice [OF this] 1
  show "\<exists>u s1. revokeRefreshTokenById (id_rt r) opts s = (Inr u, s1) \<and>
               revokeRefreshTokenById (id_rt r) opts s1 = (Inr u, s1)"
    by (simp add: revokeRefreshTokenById_def)
next
  let ?f = "\<lambda>r. if userId r = uid \<and> revoked r = False then setRevoked r else r"
  have "map ?f (map ?f rs) = map ?f rs" for rs by (induction rs) simp_all
  then show "snd (revokeAllRefreshTokensForUser uid (snd (revokeAllRefreshTokensForUser uid s)))
       = snd (revokeAllRefreshTokensForUser uid s)"
    by (simp add: revokeAllRefreshTokensForUser_def updateMany_revoked_def)
qed

text \<open>
  Claim C9 at a concrete input: revoking the active record \<open>b\<close> of \<open>db_reuse\<close> twice,
  and all records of \<open>u1\<close> twice.
\<close>

theorem revoke_idempotent_witness:
  "\<lparr>id_rt = ''b'', userId = ''u1'', tokenHash = ''#t1'', expiresAt = 100, revoked = False\<rparr>
      \<in> set (refreshTokens db_reuse)
   \<and> (\<exists>u s1. revokeRefreshTokenById ''b'' None db_reuse = (Inr u, s1) \<and>
               revokeRefreshTokenById ''b'' None s1 = (Inr u, s1) \<and>
               map revoked (refreshTokens s1) = [True, True])
   \<and> snd (revokeAllRefreshTokensForUser ''u1'' (snd (revokeAllRefreshTokensForUser ''u1'' db_reuse)))
       = snd (revokeAllRefreshTokensForUser ''u1'' db_reuse)"
proof -
  let ?r = "\<lparr>id_rt = ''b'', userId = ''u1'', tokenHash = ''#t1'', expiresAt = 100, revoked = False\<rparr>"
  have m: "?r \<in> set (refreshTokens db_reuse)" by (simp add: ex_defs)
  from revoke_idempotent [of ?r db_reuse None "''u1''"] m
  obtain u s1 where 1: "revokeRefreshTokenById ''b'' None db_reuse = (Inr u, s1)"
    and 2: "revokeRefreshTokenById ''b'' None s1 = (Inr u, s1)"
    and 3: "snd (revokeAllRefreshTokensForUser ''u1'' (snd (revokeAllRefreshTokensForUser ''u1'' db_reuse)))
       = snd (revokeAllRefreshTokensForUser ''u1'' db_reuse)"
    by auto
  from 1 have 4: "map revoked (refreshTokens s1) = [True, True]"
    by (auto simp: ex_defs op_defs)
  from 1 2 4 have "\<exists>u s1. revokeRefreshTokenById ''b'' None db_reuse = (Inr u, s1) \<and>
               revokeRefreshTokenById ''b'' None s1 = (Inr u, s1) \<and>
               map revoked (refreshTokens s1) = [True, True]"
    by (intro exI [of _ u] exI [of _ s1] conjI)
  with m 3 show ?thesis by (intro conjI)
qed

subsection \<open>Only fingerprints reach the table\<close>

lemma rotateCallback_newRaw:
  assumes "hashToken newRaw = hashToken otherRaw"
  shows "snd (rotateCallback hashToken oldHash uid newExpiresAt now newRaw newId s) =
         snd (rotateCallback hashToken oldHash uid newExpiresAt now otherRaw newId s)
       \<and> isl (fst (rotateCallback hashToken oldHash uid newExpiresAt now newRaw newId s)) =
         isl (fst (rotateCallback hashToken oldHash uid newExpiresAt now otherRaw newId s))"
  using assms
  by (simp add: rotateCallback_def Let_def split: option.split prod.split sum.split)

lemma transaction_snd_cong:
  assumes "snd (c1 s) = snd (c2 s)" "isl (fst (c1 s)) = isl (fst (c2 s))"
  shows "snd (transaction c1 s) = snd (transaction c2 s)"
  using assms by (cases "c1 s"; cases "c2 s") (auto simp: transaction_def split: sum.splits)

text \<open>
  Claim C8: no raw secret is written to the table, and lookups go by the
  fingerprint. The row \<^verbatim>\<open>createRefreshToken\<close> creates has \<open>hashToken rawToken\<close> as
  its \<open>tokenHash\<close> and nothing else of the raw secret; the row a rotation creates has
  the hash of the returned raw secret as its \<open>tokenHash\<close> and is the row found for
  it. Two raw secrets with the same hash are not told apart by
  \<^verbatim>\<open>createRefreshToken\<close>, \<^verbatim>\<open>findRefreshTokenByRaw\<close> and \<^verbatim>\<open>rotateRefreshToken\<close>, so
  these read the raw secret through its hash only; and the database after a
  rotation does not depend on the new raw secret beyond its hash.
\<close>

theorem only_fingerprints_stored:
  "(createRefreshToken hashToken uid rawToken expires newId s = (Inr r, s1) \<longrightarrow>
      r = \<lparr>id_rt = newId, userId = uid, tokenHash = hashToken rawToken,
           expiresAt = expires, revoked = False\<rparr> \<and>
      refreshTokens s1 = refreshTokens s @ [r])
   \<and> (rotateRefreshToken hashToken oldRawToken uid newExpiresAt now newRaw newId s
         = (Inr (raw', newRecord), s2) \<longrightarrow>
      newRecord = \<lparr>id_rt = newId, userId = uid, tokenHash = hashToken raw',
                   expiresAt = newExpiresAt, revoked = False\<rparr> \<and>
      findUnique_tokenHash (hashToken raw') s2 = Some newRecord)
   \<and> (hashToken rawToken = hashToken otherToken \<longrightarrow>
      createRefreshToken hashToken uid rawToken expires newId s
        = createRefreshToken hashToken uid otherToken expires newId s \<and>
      findRefreshTokenByRaw hashToken rawToken s = findRefreshTokenByRaw hashToken otherToken s \<and>
      rotateRefreshToken hashToken rawToken uid newExpiresAt now newRaw newId s
        = rotateRefreshToken hashToken otherToken uid newExpiresAt now newRaw newId s)
   \<and> (hashToken newRaw = hashToken otherRaw \<longrightarrow>
      snd (rotateRefreshToken hashToken oldRawToken uid newExpiresAt now newRaw newId s)
        = snd (rotateRefreshToken hashToken oldRawToken uid newExpiresAt now otherRaw newId s))"
proof (intro conjI impI)
  assume "createRefreshToken hashToken uid rawToken expires newId s = (Inr r, s1)"
  then show "r = \<lparr>id_rt = newId, userId = uid, tokenHash = hashToken rawToken,
           expiresAt = expires, revoked = False\<rparr>"
    and "refreshTokens s1 = refreshTokens s @ [r]"
    by (auto simp: createRefreshToken_def create_rt_def Let_def split: if_splits)
next
  assume a: "rotateRefreshToken hashToken oldRawToken uid newExpiresAt now newRaw newId s
         = (Inr (raw', newRecord), s2)"
  then have "fst (rotateRefreshToken hashToken oldRawToken uid newExpiresAt now newRaw newId s)
         = Inr (raw', newRecord)" by simp
  from rotate_Inr [OF this] obtain old where
    "findUnique_tokenHash (hashToken oldRawToken) s = Some old" and
    n: "\<forall>r \<in> set (refreshTokens s). id_rt r \<noteq> newId \<and> tokenHash r \<noteq> hashToken newRaw"
    and eq: "rotateRefreshToken hashToken oldRawToken uid newExpiresAt now newRaw newId s =
            (Inr (newRaw, \<lparr>id_rt = newId, userId = uid, tokenHash = hashToken newRaw,
                   expiresAt = newExpiresAt, revoked = False\<rparr>),
             s\<lparr>refreshTokens := map (\<lambda>x. if id_rt x = id_rt old then setRevoked x else x) (refreshTokens s)
               @ [\<lparr>id_rt = newId, userId = uid, tokenHash = hashToken newRaw,
                   expiresAt = newExpiresAt, revoked = False\<rparr>]\<rparr>)"
    by blast
  let ?f = "\<lambda>r. if id_rt r = id_rt old then setRevoked r else r"
  from eq a have raw: "raw' = newRaw"
    and new: "newRecord = \<lparr>id_rt = newId, userId = uid, tokenHash = hashToken raw',
                  expiresAt = newExpiresAt, revoked = False\<rparr>"
    and s2: "refreshTokens s2 = map ?f (refreshTokens s) @ [newRecord]"
    by auto
  have "List.find (\<lambda>r. tokenHash r = hashToken newRaw) (refreshTokens s) = None"
    using n by (simp add: find_None_iff)
  then have "List.find (\<lambda>r. tokenHash r = hashToken newRaw) (map ?f (refreshTokens s)) = None"
    by (simp add: find_tokenHash_revoke)
  from find_append_None [OF this]
  have "findUnique_tokenHash (hashToken raw') s2 = Some newRecord"
    using raw new s2 by (simp add: findUnique_tokenHash_def)
  with new show "newRecord = \<lparr>id_rt = newId, userId = uid, tokenHash = hashToken raw',
                   expiresAt = newExpiresAt, revoked = False\<rparr>"
    and "findUnique_tokenHash (hashToken raw') s2 = Some newRecord"
    by simp_all
next
  assume h: "hashToken rawToken = hashToken otherToken"
  then show "createRefreshToken hashToken uid rawToken expires newId s
        = createRefreshToken hashToken uid otherToken expires newId s"
    by (simp add: createRefreshToken_def)
  from h show "findRefreshTokenByRaw hashToken rawToken s = findRefreshTokenByRaw hashToken otherToken s"
    by (simp add: findRefreshTokenByRaw_def)
  from h show "rotateRefreshToken hashToken rawToken uid newExpiresAt now newRaw newId s
        = rotateRefreshToken hashToken otherToken uid newExpiresAt now newRaw newId s"
    by (simp add: rotateRefreshToken_def)
next
  assume "hashToken newRaw = hashToken otherRaw"
  from rotateCallback_newRaw [where hashToken = hashToken and newRaw = newRaw and otherRaw = otherRaw, OF this]
  show "snd (rotateRefreshToken hashToken oldRawToken uid newExpiresAt now newRaw newId s)
        = snd (rotateRefreshToken hashToken oldRawToken uid newExpiresAt now otherRaw newId s)"
    unfolding rotateRefreshToken_def Let_def
    by (intro transaction_snd_cong) simp_all
qed

text \<open>
  Claim C8 at a concrete input, with the hash \<open>hash_short\<close>, for which \<open>t5\<close> and
  \<open>t5x\<close> collide, and \<open>t9\<close> and \<open>t9x\<close>.
\<close>

theorem only_fingerprints_stored_witness:
  "createRefreshToken hash_short ''u1'' ''t5'' 300 ''z'' db_reuse =
     (Inr \<lparr>id_rt = ''z'', userId = ''u1'', tokenHash = ''#t5'', expiresAt = 300, revoked = False\<rparr>,
      db_reuse\<lparr>refreshTokens := refreshTokens db_reuse @
        [\<lparr>id_rt = ''z'', userId = ''u1'', tokenHash = ''#t5'', expiresAt = 300, revoked = False\<rparr>]\<rparr>)
   \<and> rotateRefreshToken hash_short ''t1'' ''u1'' 200 50 ''t9'' ''z'' db_reuse =
     (Inr (''t9'', \<lparr>id_rt = ''z'', userId = ''u1'', tokenHash = ''#t9'', expiresAt = 200, revoked = False\<rparr>),
      \<lparr>users = [''u1'', ''u2''], refreshTokens =
       [\<lparr>id_rt = ''a'', userId = ''u1'', tokenHash = ''#t0'', expiresAt = 100, revoked = True\<rparr>,
        \<lparr>id_rt = ''b'', userId = ''u1'', tokenHash = ''#t1'', expiresAt = 100, revoked = True\<rparr>,
        \<lparr>id_rt = ''z'', userId = ''u1'', tokenHash = ''#t9'', expiresAt = 200, revoked = False\<rparr>]\<rparr>)
   \<and> hash_short ''t5'' = hash_short ''t5x''
   \<and> hash_short ''t9'' = hash_short ''t9x''
   \<and> tokenHash \<lparr>id_rt = ''z'', userId = ''u1'', tokenHash = ''#t5'', expiresAt = 300, revoked = False\<rparr>
       = hash_short ''t5''
   \<and> findUnique_tokenHash (hash_short ''t9'')
       \<lparr>users = [''u1'', ''u2''], refreshTokens =
       [\<lparr>id_rt = ''a'', userId = ''u1'', tokenHash = ''#t0'', expiresAt = 100, revoked = True\<rparr>,
        \<lparr>id_rt = ''b'', userId = ''u1'', tokenHash = ''#t1'', expiresAt = 100, revoked = True\<rparr>,
        \<lparr>id_rt = ''z'', userId = ''u1'', tokenHash = ''#t9'', expiresAt = 200, revoked = False\<rparr>]\<rparr>
       = Some \<lparr>id_rt = ''z'', userId = ''u1'', tokenHash = ''#t9'', expiresAt = 200, revoked = False\<rparr>
   \<and> createRefreshToken hash_short ''u1'' ''t5'' 300 ''z'' db_reuse
       = createRefreshToken hash_short ''u1'' ''t5x'' 300 ''z'' db_reuse
   \<and> findRefreshTokenByRaw hash_short ''t5'' db_reuse = findRefreshTokenByRaw hash_short ''t5x'' db_reuse
   \<and> snd (rotateRefreshToken hash_short ''t1'' ''u1'' 200 50 ''t9'' ''z'' db_reuse)
       = snd (rotateRefreshToken hash_short ''t1'' ''u1'' 200 50 ''t9x'' ''z'' db_reuse)"
proof -
  let ?r = "\<lparr>id_rt = ''z'', userId = ''u1'', tokenHash = ''#t5'', expiresAt = 300, revoked = False\<rparr>"
  let ?n = "\<lparr>id_rt = ''z'', userId = ''u1'', tokenHash = ''#t9'', expiresAt = 200, revoked = False\<rparr>"
  let ?s2 = "\<lparr>users = [''u1'', ''u2''], refreshTokens =
       [\<lparr>id_rt = ''a'', userId = ''u1'', tokenHash = ''#t0'', expiresAt = 100, revoked = True\<rparr>,
        \<lparr>id_rt = ''b'', userId = ''u1'', tokenHash = ''#t1'', expiresAt = 100, revoked = True\<rparr>,
        ?n]\<rparr>"
  have a: "createRefreshToken hash_short ''u1'' ''t5'' 300 ''z'' db_reuse =
     (Inr ?r, db_reuse\<lparr>refreshTokens := refreshTokens db_reuse @ [?r]\<rparr>)"
    by (simp add: hash_short_def ex_defs op_defs)
  have b: "rotateRefreshToken hash_short ''t1'' ''u1'' 200 50 ''t9'' ''z'' db_reuse = (Inr (''t9'', ?n), ?s2)"
    by (simp add: hash_short_def ex_defs op_defs)
  have c: "hash_short ''t5'' = hash_short ''t5x''" by (simp add: hash_short_def)
  have d: "hash_short ''t9'' = hash_short ''t9x''" by (simp add: hash_short_def)
  note t = only_fingerprints_stored [where hashToken = hash_short and uid = "''u1''"
      and rawToken = "''t5''" and otherToken = "''t5x''" and expires = 300 and newId = "''z''"
      and s = db_reuse and r = ?r and ?s1.0 = "db_reuse\<lparr>refreshTokens := refreshTokens db_reuse @ [?r]\<rparr>"
      and oldRawToken = "''t1''" and newExpiresAt = 200 and now = 50 and newRaw = "''t9''"
      and otherRaw = "''t9x''" and raw' = "''t9''" and newRecord = ?n and ?s2.0 = ?s2]
  from t [THEN conjunct1, rule_format, OF a]
  have e: "tokenHash ?r = hash_short ''t5''" by simp
  from t [THEN conjunct2, THEN conjunct1, rule_format, OF b]
  have f: "findUnique_tokenHash (hash_short ''t9'') ?s2 = Some ?n" by (elim conjE)
  note t3 = t [THEN conjunct2, THEN conjunct2, THEN conjunct1, rule_format, OF c]
  from t3 [THEN conjunct1]
  have g: "createRefreshToken hash_short ''u1'' ''t5'' 300 ''z'' db_reuse
       = createRefreshToken hash_short ''u1'' ''t5x'' 300 ''z'' db_reuse" .
  from t3 [THEN conjunct2, THEN conjunct1]
  have h: "findRefreshTokenByRaw hash_short ''t5'' db_reuse = findRefreshTokenByRaw hash_short ''t5x'' db_reuse" .
  from t [THEN conjunct2, THEN conjunct2, THEN conjunct2, rule_format, OF d]
  have i: "snd (rotateRefreshToken hash_short ''t1'' ''u1'' 200 50 ''t9'' ''z'' db_reuse)
       = snd (rotateRefreshToken hash_short ''t1'' ''u1'' 200 50 ''t9x'' ''z'' db_reuse)" .
  from a b c d e f g h i show ?thesis by (intro conjI)
qed

subsection \<open>The cookie \<^verbatim>\<open>logout\<close> reads\<close>

lemma signUp_cookie_names:
  "fst ` set (cookies_set (signUp safeParse svc body)) \<subseteq> {accessCookieName, refreshCookieName}"
  by (auto simp: signUp_def split: option.splits sum.splits)

lemma signIn_cookie_names:
  "fst ` set (cookies_set (signIn safeParse svc body)) \<subseteq> {accessCookieName, refreshCookieName}"
  by (auto simp: signIn_def split: option.splits sum.splits)

lemma signUp_sets_cookies:
  assumes "safeParse body = Some d" "svc d = Inr (user, accessToken, refreshToken)"
  shows "cookies_set (signUp safeParse svc body) =
           [(''access_token'', accessToken), (''refresh_token'', refreshToken)]"
  using assms by (simp add: signUp_def accessCookieName_def refreshCookieName_def)

lemma signIn_sets_cookies:
  assumes "safeParse body = Some d" "svc d = Inr (user, accessToken, refreshToken)"
  shows "cookies_set (signIn safeParse svc body) =
           [(''access_token'', accessToken), (''refresh_token'', refreshToken)]"
  using assms by (simp add: signIn_def accessCookieName_def refreshCookieName_def)

lemma logout_no_cookie:
  assumes "cookies ''refreshToken'' = None"
  shows "logout svc cookies =
     (\<lparr>status = 200, message = ''Logged out successfully'', cookies_set = [],
       cookies_cleared = []\<rparr>, [], Inl ERR_HTTP_HEADERS_SENT)"
  using assms by (simp add: logout_def res_json_def res_clearCookie_def)

text \<open>
  Claim C10: \<^verbatim>\<open>config.cookie.refreshCookieName\<close> is \<^verbatim>\<open>refresh_token\<close>; a
  \<^verbatim>\<open>signUp\<close> and a \<^verbatim>\<open>signIn\<close> that succeed set the access token under
  \<^verbatim>\<open>access_token\<close> and the refresh token under \<^verbatim>\<open>refresh_token\<close>, and no other
  cookie; \<^verbatim>\<open>logout\<close> reads \<^verbatim>\<open>req.cookies.refreshToken\<close>. So for a request whose
  cookies are among those set by \<^verbatim>\<open>signUp\<close> and \<^verbatim>\<open>signIn\<close>, \<^verbatim>\<open>logout\<close> never
  calls \<^verbatim>\<open>userService.logout\<close> and still sends the response 200 with
  \<^verbatim>\<open>Logged out successfully\<close>. No cookie is cleared in that response: the
  \<^verbatim>\<open>finally\<close> block runs after the response is sent, and its first
  \<^verbatim>\<open>clearCookie\<close> throws.
\<close>

theorem logout_misses_refresh_cookie:
  "refreshCookieName = ''refresh_token''
   \<and> (safeParseUp bodyUp = Some dataUp \<and>
        userService_signUp dataUp = Inr (userUp, accessUp, refreshUp) \<longrightarrow>
        cookies_set (signUp safeParseUp userService_signUp bodyUp) =
          [(''access_token'', accessUp), (''refresh_token'', refreshUp)])
   \<and> (safeParseIn bodyIn = Some dataIn \<and>
        userService_signIn dataIn = Inr (userIn, accessIn, refreshIn) \<longrightarrow>
        cookies_set (signIn safeParseIn userService_signIn bodyIn) =
          [(''access_token'', accessIn), (''refresh_token'', refreshIn)])
   \<and> (dom cookies \<subseteq> fst ` set (cookies_set (signUp safeParseUp userService_signUp bodyUp))
                     \<union> fst ` set (cookies_set (signIn safeParseIn userService_signIn bodyIn)) \<longrightarrow>
        logout userService_logout cookies =
          (\<lparr>status = 200, message = ''Logged out successfully'', cookies_set = [],
            cookies_cleared = []\<rparr>, [], Inl ERR_HTTP_HEADERS_SENT))"
proof (intro conjI impI)
  show "refreshCookieName = ''refresh_token''" by (simp add: refreshCookieName_def)
next
  assume up: "safeParseUp bodyUp = Some dataUp \<and>
        userService_signUp dataUp = Inr (userUp, accessUp, refreshUp)"
  show "cookies_set (signUp safeParseUp userService_signUp bodyUp) =
          [(''access_token'', accessUp), (''refresh_token'', refreshUp)]"
    by (rule signUp_sets_cookies [where safeParse = safeParseUp and body = bodyUp
          and svc = userService_signUp and d = dataUp,
          OF up [THEN conjunct1] up [THEN conjunct2]])
next
  assume inn: "safeParseIn bodyIn = Some dataIn \<and>
        userService_signIn dataIn = Inr (userIn, accessIn, refreshIn)"
  show "cookies_set (signIn safeParseIn userService_signIn bodyIn) =
          [(''access_token'', accessIn), (''refresh_token'', refreshIn)]"
    by (rule signIn_sets_cookies [where safeParse = safeParseIn and body = bodyIn
          and svc = userService_signIn and d = dataIn,
          OF inn [THEN conjunct1] inn [THEN conjunct2]])
next
  assume sub: "dom cookies \<subseteq> fst ` set (cookies_set (signUp safeParseUp userService_signUp bodyUp))
                     \<union> fst ` set (cookies_set (signIn safeParseIn userService_signIn bodyIn))"
  from sub signUp_cookie_names [of safeParseUp userService_signUp bodyUp]
    signIn_cookie_names [of safeParseIn userService_signIn bodyIn]
  have "dom cookies \<subseteq> {accessCookieName, refreshCookieName}" by blast
  moreover have "''refreshToken'' \<notin> {accessCookieName, refreshCookieName}"
    by (simp add: accessCookieName_def refreshCookieName_def)
  ultimately have none: "cookies ''refreshToken'' = None" by blast
  show "logout userService_logout cookies =
          (\<lparr>status = 200, message = ''Logged out successfully'', cookies_set = [],
            cookies_cleared = []\<rparr>, [], Inl ERR_HTTP_HEADERS_SENT)"
    by (rule logout_no_cookie [where cookies = cookies, OF none])
qed

text \<open>
  Claim C10 at a concrete input: a \<^verbatim>\<open>signUp\<close> and a \<^verbatim>\<open>signIn\<close> that succeed, and a
  request that carries the cookies the \<^verbatim>\<open>signUp\<close> has set, the refresh token \<open>R1\<close>
  among them. The service would revoke (it returns normally on every token), and is
  not called.
\<close>

theorem logout_misses_refresh_cookie_witness:
  "Some ''body'' = Some ''body''
   \<and> (Inr (''body'', ''A1'', ''R1'') :: string + string \<times> string \<times> string)
        = Inr (''body'', ''A1'', ''R1'')
   \<and> cookies_set (signUp Some (\<lambda>d. Inr (d, ''A1'', ''R1'')) ''body'') =
        [(''access_token'', ''A1''), (''refresh_token'', ''R1'')]
   \<and> cookies_set (signIn Some (\<lambda>d. Inr (d, ''A2'', ''R2'')) ''body'') =
        [(''access_token'', ''A2''), (''refresh_token'', ''R2'')]
   \<and> dom (cookies_of (signUp Some (\<lambda>d. Inr (d, ''A1'', ''R1'')) ''body''))
        \<subseteq> fst ` set (cookies_set (signUp Some (\<lambda>d. Inr (d, ''A1'', ''R1'')) ''body''))
          \<union> fst ` set (cookies_set (signIn Some (\<lambda>d. Inr (d, ''A2'', ''R2'')) ''body''))
   \<and> cookies_of (signUp Some (\<lambda>d. Inr (d, ''A1'', ''R1'')) ''body'') ''refresh_token'' = Some ''R1''
   \<and> logout (\<lambda>t. Inr ()) (cookies_of (signUp Some (\<lambda>d. Inr (d, ''A1'', ''R1'')) ''body'')) =
        (\<lparr>status = 200, message = ''Logged out successfully'', cookies_set = [],
          cookies_cleared = []\<rparr>, [], Inl ERR_HTTP_HEADERS_SENT)"
proof -
  let ?svcUp = "\<lambda>d. Inr (d, ''A1'', ''R1'') :: string + string \<times> string \<times> string"
  let ?svcIn = "\<lambda>d. Inr (d, ''A2'', ''R2'') :: string + string \<times> string \<times> string"
  let ?up = "signUp Some ?svcUp ''body''"
  let ?in = "signIn Some ?svcIn ''body''"
  note t = logout_misses_refresh_cookie [where safeParseUp = Some and bodyUp = "''body''"
      and dataUp = "''body''" and userService_signUp = ?svcUp and userUp = "''body''"
      and accessUp = "''A1''" and refreshUp = "''R1''"
      and safeParseIn = Some and bodyIn = "''body''" and dataIn = "''body''"
      and userService_signIn = ?svcIn and userIn = "''body''"
      and accessIn = "''A2''" and refreshIn = "''R2''"
      and cookies = "cookies_of ?up" and userService_logout = "\<lambda>t. Inr ()"]
  have p: "Some ''body'' = Some ''body''" by simp
  have q: "(Inr (''body'', ''A1'', ''R1'') :: string + string \<times> string \<times> string)
        = Inr (''body'', ''A1'', ''R1'')" by simp
  have q': "(Inr (''body'', ''A2'', ''R2'') :: string + string \<times> string \<times> string)
        = Inr (''body'', ''A2'', ''R2'')" by simp
  from t [THEN conjunct2, THEN conjunct1, rule_format, OF conjI [OF p q]]
  have a: "cookies_set ?up = [(''access_token'', ''A1''), (''refresh_token'', ''R1'')]" .
  from t [THEN conjunct2, THEN conjunct2, THEN conjunct1, rule_format, OF conjI [OF p q']]
  have b: "cookies_set ?in = [(''access_token'', ''A2''), (''refresh_token'', ''R2'')]" .
  have c: "dom (cookies_of ?up) \<subseteq> fst ` set (cookies_set ?up) \<union> fst ` set (cookies_set ?in)"
    by (simp add: a b cookies_of_def dom_map_of_conv_image_fst)
  have d: "cookies_of ?up ''refresh_token'' = Some ''R1''"
    by (simp add: a cookies_of_def)
  from t [THEN conjunct2, THEN conjunct2, THEN conjunct2, rule_format, OF c]
  have e: "logout (\<lambda>t. Inr ()) (cookies_of ?up) =
        (\<lparr>status = 200, message = ''Logged out successfully'', cookies_set = [],
          cookies_cleared = []\<rparr>, [], Inl ERR_HTTP_HEADERS_SENT)" .
  from p q a b c d e show ?thesis by (intro conjI)
qed

end
